theory Spec2Isabelle
  imports Complex_Main
begin

section \<open>Values and errors\<close>

text \<open>
  The notebook \<^verbatim>\<open>dynamic_rnn\<close> holds two pieces of logic: the class
  \<^verbatim>\<open>ToySequenceData\<close> (a generator of padded toy sequences with a cyclic batch
  reader) and the last lines of \<^verbatim>\<open>dynamicRNN\<close>, which pick the output of the last
  valid timestep of every sequence of a batch.

  Python integers are unbounded and are modelled as \<open>int\<close>. A finite double is a
  rational number, so floats are carried by \<open>rat\<close>: \<^verbatim>\<open>0.\<close> and \<^verbatim>\<open>1.\<close> are \<open>0\<close> and
  \<open>1\<close>. The conversion of an integer to a double raises \<^verbatim>\<open>OverflowError\<close> beyond the
  range of doubles, and the model raises it too. The value of \<^verbatim>\<open>float(i)/max_value\<close> is
  kept as the exact quotient of the two integers: the rounding to the nearest double is not
  part of the model, and where a statement names a stored value it names the exact quotient
  that the double approximates. The index arithmetic of the graph (\<^verbatim>\<open>tf.int32\<close>) is modelled on \<open>int\<close>;
  \<open>index_fits_int32\<close> says when the two agree.
\<close>

type_synonym pyfloat = rat

datatype error =
    ValueError              \<comment> \<open>\<^verbatim>\<open>random.randint\<close> on an empty range\<close>
  | ZeroDivisionError       \<comment> \<open>float division by zero\<close>
  | OverflowError           \<comment> \<open>int too large to convert to float\<close>
  | InvalidArgumentError    \<comment> \<open>TensorFlow: incompatible shapes, index out of range\<close>

section \<open>The last relevant output of \<^verbatim>\<open>dynamicRNN\<close>\<close>

text \<open>
  \<^verbatim>\<open>
    batch_size = tf.shape(outputs)[0]
    index = tf.range(0, batch_size) * seq_max_len + (seqlen - 1)
    outputs = tf.gather(tf.reshape(outputs, [-1, n_hidden]), index)
  \<close>
  At this point \<^verbatim>\<open>outputs\<close> has shape \<open>[batch_size, seq_max_len, n_hidden]\<close>: a list of
  sequences, each a list of timesteps, each a feature vector. A feature vector is kept as
  one value, so the reshape to \<open>[-1, n_hidden]\<close> is the concatenation of the sequences.
\<close>

definition tf_range :: "nat \<Rightarrow> int list" where
  "tf_range n = map int [0..<n]"

definition tf_reshape :: "'v list list \<Rightarrow> 'v list" where
  "tf_reshape outputs = concat outputs"

text \<open>
  The elementwise product and sum follow the broadcasting of one-dimensional tensors:
  equal lengths combine pointwise, a tensor of length one is stretched, anything else is
  rejected.
\<close>

definition dynamicRNN_index :: "int \<Rightarrow> nat \<Rightarrow> int list \<Rightarrow> error + int list" where
  "dynamicRNN_index seq_max_len batch_size seqlen =
     (if length seqlen = batch_size then
        Inr (map2 (\<lambda>b l. b * seq_max_len + (l - 1)) (tf_range batch_size) seqlen)
      else if length seqlen = 1 then
        Inr (map (\<lambda>b. b * seq_max_len + (hd seqlen - 1)) (tf_range batch_size))
      else if batch_size = 1 then
        Inr (map (\<lambda>l. 0 * seq_max_len + (l - 1)) seqlen)
      else Inl InvalidArgumentError)"

text \<open>
  \<^verbatim>\<open>tf.gather\<close> takes the rows at the given indices (negative indices do not count
  from the end). What it does with an index outside \<open>[0, number of rows)\<close> depends on the
  device the operation is placed on, which the notebook does not fix: the CPU kernel
  raises an error, the GPU kernel stores a row of zeros and raises nothing.
  \<open>tf_gather\<close> is the CPU kernel, \<open>tf_gather_gpu\<close> the GPU kernel, with the row of zeros
  as a parameter. On indices inside the range the two agree.
\<close>

definition tf_gather :: "'v list \<Rightarrow> int list \<Rightarrow> error + 'v list" where
  "tf_gather params indices =
     (if list_all (\<lambda>i. 0 \<le> i \<and> i < int (length params)) indices
      then Inr (map (\<lambda>i. params ! nat i) indices)
      else Inl InvalidArgumentError)"

definition dynamicRNN_outputs :: "int \<Rightarrow> 'v list list \<Rightarrow> int list \<Rightarrow> error + 'v list" where
  "dynamicRNN_outputs seq_max_len outputs seqlen =
     (let batch_size = length outputs in
      case dynamicRNN_index seq_max_len batch_size seqlen of
        Inl e \<Rightarrow> Inl e
      | Inr index \<Rightarrow> tf_gather (tf_reshape outputs) index)"

definition tf_gather_gpu :: "'v \<Rightarrow> 'v list \<Rightarrow> int list \<Rightarrow> 'v list" where
  "tf_gather_gpu zero_row params indices =
     map (\<lambda>i. if 0 \<le> i \<and> i < int (length params) then params ! nat i else zero_row) indices"

definition dynamicRNN_outputs_gpu ::
  "'v \<Rightarrow> int \<Rightarrow> 'v list list \<Rightarrow> int list \<Rightarrow> error + 'v list" where
  "dynamicRNN_outputs_gpu zero_row seq_max_len outputs seqlen =
     (let batch_size = length outputs in
      case dynamicRNN_index seq_max_len batch_size seqlen of
        Inl e \<Rightarrow> Inl e
      | Inr index \<Rightarrow> Inr (tf_gather_gpu zero_row (tf_reshape outputs) index))"

text \<open>
  The true lengths are fed to a \<^verbatim>\<open>tf.int32\<close> placeholder and the index is computed in
  32 bit integers, where a value out of range wraps around. \<open>dynamicRNN_index\<close> computes
  on \<open>int\<close>; it is the index of the source when the constant, the batch size, every true
  length and every intermediate value of the index expression is a 32 bit integer.
\<close>

definition int32 :: "int \<Rightarrow> bool" where
  "int32 x \<longleftrightarrow> - (2 ^ 31) \<le> x \<and> x < 2 ^ 31"

definition index_fits_int32 :: "int \<Rightarrow> int list \<Rightarrow> bool" where
  "index_fits_int32 seq_max_len lens \<longleftrightarrow>
     int32 seq_max_len \<and> int32 (int (length lens)) \<and>
     list_all (\<lambda>(b, l). int32 l \<and> int32 (l - 1) \<and> int32 (int b) \<and> int32 (int b * seq_max_len) \<and>
                 int32 (int b * seq_max_len + (l - 1)))
       (zip [0..<length lens] lens)"


section \<open>The toy data set: \<^verbatim>\<open>ToySequenceData\<close>\<close>

text \<open>
  The object holds three parallel lists and the cursor \<^verbatim>\<open>batch_id\<close>.
\<close>

record dataset =
  data :: "pyfloat list list list"
  labels :: "pyfloat list list"
  seqlen :: "int list"
  batch_id :: int

subsection \<open>The random source\<close>

text \<open>
  The module \<^verbatim>\<open>random\<close> is a hidden stream of draws. It is injected as a function
  from the number of the draw to a raw natural number; every call consumes one draw and
  the position is passed on. \<^verbatim>\<open>random.randint(a, b)\<close> returns an integer of
  \<open>[a, b]\<close>, any of them for a suitable raw draw, and raises \<^verbatim>\<open>ValueError\<close> on an
  empty range. \<^verbatim>\<open>random.random()\<close> returns a multiple of \<open>2 ^ -53\<close> in \<open>[0, 1)\<close>.
\<close>

type_synonym random_source = "nat \<Rightarrow> nat"

definition randint :: "random_source \<Rightarrow> int \<Rightarrow> int \<Rightarrow> nat \<Rightarrow> error + (int \<times> nat)" where
  "randint src a b k =
     (if b < a then Inl ValueError
      else Inr (a + int (src k mod nat (b - a + 1)), Suc k))"

definition random_random :: "random_source \<Rightarrow> nat \<Rightarrow> pyfloat \<times> nat" where
  "random_random src k = (of_nat (src k mod 2 ^ 53) / 2 ^ 53, Suc k)"

subsection \<open>The constructor\<close>

text \<open>
  \<^verbatim>\<open>float(i)/max_value\<close>. \<^verbatim>\<open>float(i)\<close> raises \<^verbatim>\<open>OverflowError\<close> when \<open>i\<close> rounds
  to a magnitude of \<open>2 ^ 1024\<close>, that is from \<open>2 ^ 1024 - 2 ^ 970\<close> on; the division converts
  \<^verbatim>\<open>max_value\<close> in the same way and then raises \<^verbatim>\<open>ZeroDivisionError\<close> on zero.
\<close>

definition float_overflow :: "int \<Rightarrow> bool" where
  "float_overflow i \<longleftrightarrow> 2 ^ 1024 - 2 ^ 970 \<le> \<bar>i\<bar>"

definition float_div :: "int \<Rightarrow> int \<Rightarrow> error + pyfloat" where
  "float_div i max_value =
     (if float_overflow i then Inl OverflowError
      else if float_overflow max_value then Inl OverflowError
      else if max_value = 0 then Inl ZeroDivisionError
      else Inr (of_int i / of_int max_value))"

definition py_range :: "int \<Rightarrow> int \<Rightarrow> int list" where
  "py_range a b = [a..b - 1]"

text \<open>A list comprehension whose body may raise: the first error ends it.\<close>

fun map_err :: "('a \<Rightarrow> error + 'b) \<Rightarrow> 'a list \<Rightarrow> error + 'b list" where
  "map_err f [] = Inr []"
| "map_err f (x # xs) =
     (case f x of
        Inl e \<Rightarrow> Inl e
      | Inr y \<Rightarrow> (case map_err f xs of Inl e \<Rightarrow> Inl e | Inr ys \<Rightarrow> Inr (y # ys)))"

text \<open>\<^verbatim>\<open>[[float(i)/max_value] for i in range(rand_start, rand_start + len)]\<close>\<close>

definition linear_values :: "int \<Rightarrow> int \<Rightarrow> int \<Rightarrow> error + pyfloat list list" where
  "linear_values max_value rand_start len =
     map_err (\<lambda>i. case float_div i max_value of Inl e \<Rightarrow> Inl e | Inr q \<Rightarrow> Inr [q])
       (py_range rand_start (rand_start + len))"

text \<open>
  \<^verbatim>\<open>[[float(random.randint(0, max_value))/max_value] for i in range(len)]\<close>, the
  count being the number of iterations \<open>nat len\<close> of \<^verbatim>\<open>range(len)\<close>.
\<close>

fun random_values :: "random_source \<Rightarrow> int \<Rightarrow> nat \<Rightarrow> nat \<Rightarrow> error + (pyfloat list list \<times> nat)" where
  "random_values src max_value 0 k = Inr ([], k)"
| "random_values src max_value (Suc n) k =
     (case randint src 0 max_value k of
        Inl e \<Rightarrow> Inl e
      | Inr (v, k1) \<Rightarrow>
          (case float_div v max_value of
             Inl e \<Rightarrow> Inl e
           | Inr q \<Rightarrow>
               (case random_values src max_value n k1 of
                  Inl e \<Rightarrow> Inl e
                | Inr (qs, k2) \<Rightarrow> Inr ([q] # qs, k2))))"

text \<open>\<^verbatim>\<open>[[0.] for i in range(max_seq_len - len)]\<close>\<close>

definition padding :: "int \<Rightarrow> int \<Rightarrow> pyfloat list list" where
  "padding max_seq_len len = replicate (nat (max_seq_len - len)) [0]"

text \<open>
  One iteration of the loop of \<^verbatim>\<open>__init__\<close>: the padded sequence, its label and its
  length, with the position of the random source after it.
\<close>

type_synonym sample = "pyfloat list list \<times> pyfloat list \<times> int"

definition gen_sample ::
  "random_source \<Rightarrow> int \<Rightarrow> int \<Rightarrow> int \<Rightarrow> nat \<Rightarrow> error + (sample \<times> nat)" where
  "gen_sample src max_seq_len min_seq_len max_value k =
     (case randint src min_seq_len max_seq_len k of
        Inl e \<Rightarrow> Inl e
      | Inr (len, k1) \<Rightarrow>
          (case random_random src k1 of
             (u, k2) \<Rightarrow>
               if u < 1 / 2 then
                 (case randint src 0 (max_value - len) k2 of
                    Inl e \<Rightarrow> Inl e
                  | Inr (rand_start, k3) \<Rightarrow>
                      (case linear_values max_value rand_start len of
                         Inl e \<Rightarrow> Inl e
                       | Inr s \<Rightarrow> Inr ((s @ padding max_seq_len len, [1, 0], len), k3)))
               else
                 (case random_values src max_value (nat len) k2 of
                    Inl e \<Rightarrow> Inl e
                  | Inr (s, k3) \<Rightarrow> Inr ((s @ padding max_seq_len len, [0, 1], len), k3))))"

text \<open>
  The loop \<^verbatim>\<open>for i in range(n_samples)\<close> appends each sample to the three lists; an
  error leaves the constructor at once.
\<close>

fun gen_loop ::
  "random_source \<Rightarrow> int \<Rightarrow> int \<Rightarrow> int \<Rightarrow> nat \<Rightarrow> sample list \<times> nat \<Rightarrow> error + (sample list \<times> nat)" where
  "gen_loop src max_seq_len min_seq_len max_value 0 (acc, k) = Inr (acc, k)"
| "gen_loop src max_seq_len min_seq_len max_value (Suc n) (acc, k) =
     (case gen_sample src max_seq_len min_seq_len max_value k of
        Inl e \<Rightarrow> Inl e
      | Inr (smp, k') \<Rightarrow> gen_loop src max_seq_len min_seq_len max_value n (acc @ [smp], k'))"

definition ToySequenceData ::
  "random_source \<Rightarrow> int \<Rightarrow> int \<Rightarrow> int \<Rightarrow> int \<Rightarrow> error + dataset" where
  "ToySequenceData src n_samples max_seq_len min_seq_len max_value =
     (case gen_loop src max_seq_len min_seq_len max_value (nat n_samples) ([], 0) of
        Inl e \<Rightarrow> Inl e
      | Inr (acc, k) \<Rightarrow>
          Inr \<lparr>data = map fst acc, labels = map (fst \<circ> snd) acc,
               seqlen = map (snd \<circ> snd) acc, batch_id = 0\<rparr>)"

subsection \<open>The batch reader \<^verbatim>\<open>next\<close>\<close>

text \<open>
  A Python slice \<^verbatim>\<open>xs[i:j]\<close>: a negative bound counts from the end, and both bounds
  are clipped to the list.
\<close>

definition py_slice :: "'a list \<Rightarrow> int \<Rightarrow> int \<Rightarrow> 'a list" where
  "py_slice xs i j =
     (let n = int (length xs);
          lo = (if i < 0 then max (i + n) 0 else min i n);
          hi = (if j < 0 then max (j + n) 0 else min j n)
      in take (nat (hi - lo)) (drop (nat lo) xs))"

type_synonym batch = "pyfloat list list list \<times> pyfloat list list \<times> int list"

definition next_batch :: "dataset \<Rightarrow> int \<Rightarrow> batch \<times> dataset" where
  "next_batch s batch_size =
     (let s1 = (if batch_id s = int (length (data s)) then s\<lparr>batch_id := 0\<rparr> else s);
          stop = min (batch_id s1 + batch_size) (int (length (data s1)));
          batch_data = py_slice (data s1) (batch_id s1) stop;
          batch_labels = py_slice (labels s1) (batch_id s1) stop;
          batch_seqlen = py_slice (seqlen s1) (batch_id s1) stop
      in ((batch_data, batch_labels, batch_seqlen), s1\<lparr>batch_id := stop\<rparr>))"

text \<open>A run of calls, as the training loop makes them; the batches are dropped.\<close>

fun next_calls :: "dataset \<Rightarrow> int list \<Rightarrow> dataset" where
  "next_calls s [] = s"
| "next_calls s (b # bs) = next_calls (snd (next_batch s b)) bs"

text \<open>The sizes of the batches of a run of calls.\<close>

fun batch_sizes :: "dataset \<Rightarrow> int list \<Rightarrow> nat list" where
  "batch_sizes s [] = []"
| "batch_sizes s (b # bs) =
     length (fst (fst (next_batch s b))) # batch_sizes (snd (next_batch s b)) bs"

section \<open>Flattening and indexing\<close>

lemma length_concat_uniform:
  "\<forall>row \<in> set xss. length row = m \<Longrightarrow> length (concat xss) = length xss * m"
  by (induction xss) auto

lemma concat_nth_uniform:
  "\<forall>row \<in> set xss. length row = m \<Longrightarrow> b < length xss \<Longrightarrow> j < m \<Longrightarrow>
     concat xss ! (b * m + j) = xss ! b ! j"
proof (induction xss arbitrary: b)
  case Nil
  then show ?case by simp
next
  case (Cons row xss)
  show ?case
  proof (cases b)
    case 0
    with Cons.prems show ?thesis by (simp add: nth_append)
  next
    case (Suc b')
    with Cons.prems have "concat xss ! (b' * m + j) = xss ! b' ! j"
      by (intro Cons.IH) auto
    with Suc Cons.prems show ?thesis
      by (simp add: nth_append add.assoc)
  qed
qed

lemma index_same_length:
  "length lens = B \<Longrightarrow>
     dynamicRNN_index m B lens = Inr (map (\<lambda>b. int b * m + (lens ! b - 1)) [0..<B])"
  by (auto simp: dynamicRNN_index_def tf_range_def intro!: nth_equalityI)

lemma outputs_same_length:
  "length lens = length outs \<Longrightarrow>
     dynamicRNN_outputs m outs lens =
       tf_gather (concat outs) (map (\<lambda>b. int b * m + (lens ! b - 1)) [0..<length outs])"
  by (simp add: dynamicRNN_outputs_def index_same_length tf_reshape_def)

lemma length_flat:
  assumes "\<forall>row \<in> set outs. int (length row) = m"
  shows "int (length (concat outs)) = int (length outs) * m"
proof (cases outs)
  case Nil
  then show ?thesis by simp
next
  case (Cons row rest)
  with assms have "0 \<le> m" by auto
  moreover from assms have "\<forall>row \<in> set outs. length row = nat m" by auto
  ultimately show ?thesis using length_concat_uniform[of outs "nat m"] by simp
qed

lemma flat_index_valid:
  assumes shape: "\<forall>row \<in> set outs. int (length row) = m"
    and b: "b < length outs" and l: "1 \<le> l" "l \<le> m"
  shows "0 \<le> int b * m + (l - 1)"
    and "int b * m + (l - 1) < int (length (concat outs))"
    and "concat outs ! nat (int b * m + (l - 1)) = outs ! b ! nat (l - 1)"
proof -
  from shape have u: "\<forall>row \<in> set outs. length row = nat m" by auto
  from l have m0: "0 \<le> m" by simp
  show "0 \<le> int b * m + (l - 1)" using l m0 by simp
  have "int b * m + (l - 1) < int b * m + m" using l by simp
  also have "\<dots> = (int b + 1) * m" by (simp add: algebra_simps)
  also have "\<dots> \<le> int (length outs) * m"
    using b m0 by (intro mult_right_mono) auto
  finally show "int b * m + (l - 1) < int (length (concat outs))"
    using length_flat[OF shape] by simp
  have "nat (int b * m + (l - 1)) = b * nat m + nat (l - 1)"
    using l m0 by (simp add: nat_add_distrib nat_mult_distrib)
  moreover have "nat (l - 1) < nat m" using l by simp
  ultimately show "concat outs ! nat (int b * m + (l - 1)) = outs ! b ! nat (l - 1)"
    using concat_nth_uniform[OF u b] by simp
qed

lemma outputs_valid:
  assumes shape: "\<forall>row \<in> set outs. int (length row) = m"
    and len: "length lens = length outs"
    and valid: "\<forall>l \<in> set lens. 1 \<le> l \<and> l \<le> m"
  shows "dynamicRNN_outputs m outs lens =
           Inr (map (\<lambda>b. outs ! b ! nat (lens ! b - 1)) [0..<length outs])"
proof -
  have v: "1 \<le> lens ! b \<and> lens ! b \<le> m" if "b < length outs" for b
    using valid that len by (simp add: all_set_conv_all_nth)
  have r: "0 \<le> int b * m + (lens ! b - 1) \<and>
      int b * m + (lens ! b - 1) < int (length (concat outs)) \<and>
      concat outs ! nat (int b * m + (lens ! b - 1)) = outs ! b ! nat (lens ! b - 1)"
    if "b < length outs" for b
    using flat_index_valid[OF shape that, of "lens ! b"] v[OF that] by blast
  have "list_all (\<lambda>i. 0 \<le> i \<and> i < int (length (concat outs)))
          (map (\<lambda>b. int b * m + (lens ! b - 1)) [0..<length outs])"
    using r by (simp add: list_all_iff)
  moreover have "map (\<lambda>i. concat outs ! nat i)
          (map (\<lambda>b. int b * m + (lens ! b - 1)) [0..<length outs])
        = map (\<lambda>b. outs ! b ! nat (lens ! b - 1)) [0..<length outs]"
    using r by simp
  ultimately show ?thesis
    by (simp add: outputs_same_length[OF len] tf_gather_def)
qed



section \<open>C1: the extractor returns the last valid timestep of every sequence\<close>



section \<open>C4: gathering by flat offset is direct indexing\<close>



section \<open>C5: true lengths outside \<open>[1, seq_max_len]\<close>\<close>

lemma gather_error_iff:
  "tf_gather ps (map f [0..<n]) = Inl InvalidArgumentError \<longleftrightarrow>
     (\<exists>b < n. f b < 0 \<or> int (length ps) \<le> f b)"
  by (auto simp: tf_gather_def list_all_iff not_le not_less)

text \<open>
  Claim C5 says that a true length outside \<open>[1, seq_max_len]\<close> always makes the extractor
  fail. It does not: with true lengths 3 and 0 on two sequences of five timesteps the flat
  offset of the second row is \<open>1 * 5 + (0 - 1) = 4\<close>, the last timestep of the first
  sequence, and the extractor returns it without an error.
\<close>

theorem out_of_range_length_not_detected:
  "dynamicRNN_outputs 5
     [[[10], [11], [12], [13], [14]], [[20], [21], [22], [23], [24]]] [3, 0]
   = Inr [[12], [14::int]]"
  by (simp add: dynamicRNN_outputs_def dynamicRNN_index_def tf_range_def tf_gather_def
      tf_reshape_def upt_rec)

lemma outputs_gpu_valid:
  assumes shape: "\<forall>row \<in> set outs. int (length row) = m"
    and len: "length lens = length outs"
    and valid: "\<forall>l \<in> set lens. 1 \<le> l \<and> l \<le> m"
  shows "dynamicRNN_outputs_gpu zero_row m outs lens = dynamicRNN_outputs m outs lens"
proof -
  have "0 \<le> int b * m + (lens ! b - 1) \<and>
      int b * m + (lens ! b - 1) < int (length (concat outs)) \<and>
      concat outs ! nat (int b * m + (lens ! b - 1)) = outs ! b ! nat (lens ! b - 1)"
    if b: "b < length outs" for b
  proof -
    from valid len b have "1 \<le> lens ! b" "lens ! b \<le> m"
      by (simp_all add: all_set_conv_all_nth)
    with flat_index_valid[OF shape b, of "lens ! b"] show ?thesis by blast
  qed
  then have "tf_gather_gpu zero_row (concat outs)
        (map (\<lambda>b. int b * m + (lens ! b - 1)) [0..<length outs])
      = map (\<lambda>b. outs ! b ! nat (lens ! b - 1)) [0..<length outs]"
    by (simp add: tf_gather_gpu_def)
  then show ?thesis
    by (simp add: dynamicRNN_outputs_gpu_def index_same_length[OF len] tf_reshape_def
        outputs_valid[OF shape len valid])
qed

lemma outputs_gpu_same_length:
  "length lens = length outs \<Longrightarrow>
     dynamicRNN_outputs_gpu zero_row m outs lens =
       Inr (tf_gather_gpu zero_row (concat outs)
              (map (\<lambda>b. int b * m + (lens ! b - 1)) [0..<length outs]))"
  by (simp add: dynamicRNN_outputs_gpu_def index_same_length tf_reshape_def)

text \<open>
  Claim C5 as amended. The extractor never compares a true length with
  \<open>[1, seq_max_len]\<close>; it gathers row \<open>b\<close> at the flat offset
  \<open>b * seq_max_len + (lens ! b - 1)\<close> of the flattened batch. For a batch of \<open>B\<close>
  sequences of \<open>seq_max_len\<close> timesteps and \<open>B\<close> true lengths, all values of the index
  expression being 32 bit integers:
  \<^item> if every flat offset lies in \<open>[0, B * seq_max_len)\<close>, the extractor returns the rows at
    these offsets and raises nothing, on either kernel, also when a true length is outside
    \<open>[1, seq_max_len]\<close>: row \<open>b\<close> is then a timestep of another sequence;
  \<^item> with the CPU kernel of the gather it fails, with the index error of the gather,
    exactly when some flat offset lies outside \<open>[0, B * seq_max_len)\<close>, so it fails when the
    first true length is below one or the last one above \<open>seq_max_len\<close>;
  \<^item> with the GPU kernel it never fails: a row whose flat offset lies outside
    \<open>[0, B * seq_max_len)\<close> is the row of zeros.
\<close>

theorem extractor_gathers_unchecked_flat_offsets:
  assumes shape: "\<forall>row \<in> set outs. int (length row) = seq_max_len"
    and len: "length lens = length outs"
    and fits: "index_fits_int32 seq_max_len lens"
  shows "((\<forall>b < length outs.
             0 \<le> int b * seq_max_len + (lens ! b - 1) \<and>
             int b * seq_max_len + (lens ! b - 1) < int (length outs) * seq_max_len) \<longrightarrow>
            dynamicRNN_outputs seq_max_len outs lens =
              Inr (map (\<lambda>b. tf_reshape outs ! nat (int b * seq_max_len + (lens ! b - 1)))
                     [0..<length outs]) \<and>
            dynamicRNN_outputs_gpu zero_row seq_max_len outs lens =
              Inr (map (\<lambda>b. tf_reshape outs ! nat (int b * seq_max_len + (lens ! b - 1)))
                     [0..<length outs])) \<and>
         (dynamicRNN_outputs seq_max_len outs lens = Inl InvalidArgumentError \<longleftrightarrow>
            (\<exists>b < length outs.
               int b * seq_max_len + (lens ! b - 1) < 0 \<or>
               int (length outs) * seq_max_len \<le> int b * seq_max_len + (lens ! b - 1))) \<and>
         (outs \<noteq> [] \<and> (hd lens < 1 \<or> seq_max_len < last lens) \<longrightarrow>
            dynamicRNN_outputs seq_max_len outs lens = Inl InvalidArgumentError) \<and>
         dynamicRNN_outputs_gpu zero_row seq_max_len outs lens =
           Inr (map (\<lambda>b. if 0 \<le> int b * seq_max_len + (lens ! b - 1) \<and>
                            int b * seq_max_len + (lens ! b - 1) < int (length outs) * seq_max_len
                         then tf_reshape outs ! nat (int b * seq_max_len + (lens ! b - 1))
                         else zero_row)
                  [0..<length outs])"
proof -
  let ?f = "\<lambda>b. int b * seq_max_len + (lens ! b - 1)"
  let ?N = "int (length outs) * seq_max_len"
  have eq: "dynamicRNN_outputs seq_max_len outs lens
      = tf_gather (concat outs) (map ?f [0..<length outs])"
    by (rule outputs_same_length[OF len])
  have gpu: "dynamicRNN_outputs_gpu zero_row seq_max_len outs lens =
      Inr (map (\<lambda>b. if 0 \<le> ?f b \<and> ?f b < ?N then tf_reshape outs ! nat (?f b) else zero_row)
             [0..<length outs])"
    by (simp add: outputs_gpu_same_length[OF len] tf_gather_gpu_def length_flat[OF shape]
        tf_reshape_def comp_def)
  have iff: "dynamicRNN_outputs seq_max_len outs lens = Inl InvalidArgumentError \<longleftrightarrow>
      (\<exists>b < length outs. ?f b < 0 \<or> ?N \<le> ?f b)"
    unfolding eq gather_error_iff length_flat[OF shape] ..
  have inside: "dynamicRNN_outputs seq_max_len outs lens =
        Inr (map (\<lambda>b. tf_reshape outs ! nat (?f b)) [0..<length outs]) \<and>
      dynamicRNN_outputs_gpu zero_row seq_max_len outs lens =
        Inr (map (\<lambda>b. tf_reshape outs ! nat (?f b)) [0..<length outs])"
    if ok: "\<forall>b < length outs. 0 \<le> ?f b \<and> ?f b < ?N"
  proof -
    from ok have "list_all (\<lambda>i. 0 \<le> i \<and> i < int (length (concat outs)))
        (map ?f [0..<length outs])"
      by (simp add: list_all_iff length_flat[OF shape])
    then have c: "dynamicRNN_outputs seq_max_len outs lens =
        Inr (map (\<lambda>b. tf_reshape outs ! nat (?f b)) [0..<length outs])"
      by (simp add: eq tf_gather_def tf_reshape_def comp_def)
    from ok have "map (\<lambda>b. if 0 \<le> ?f b \<and> ?f b < ?N then tf_reshape outs ! nat (?f b) else zero_row)
             [0..<length outs]
        = map (\<lambda>b. tf_reshape outs ! nat (?f b)) [0..<length outs]"
      by simp
    with gpu c show ?thesis by simp
  qed
  have ends: "dynamicRNN_outputs seq_max_len outs lens = Inl InvalidArgumentError"
    if ne: "outs \<noteq> []" and bad: "hd lens < 1 \<or> seq_max_len < last lens"
  proof -
    from ne len have lne: "lens \<noteq> []" by auto
    from bad show ?thesis
    proof
      assume "hd lens < 1"
      with lne have "?f 0 < 0" by (simp add: hd_conv_nth)
      with ne iff show ?thesis by blast
    next
      assume "seq_max_len < last lens"
      with lne len have "seq_max_len < lens ! (length outs - 1)"
        by (simp add: last_conv_nth)
      then have "int (length outs - 1) * seq_max_len + seq_max_len \<le> ?f (length outs - 1)"
        by simp
      moreover have "int (length outs - 1) * seq_max_len + seq_max_len = ?N"
        using ne by (cases outs) (simp_all add: algebra_simps)
      ultimately have "?N \<le> ?f (length outs - 1)" by simp
      moreover from ne have "length outs - 1 < length outs" by simp
      ultimately show ?thesis using iff by blast
    qed
  qed
  from inside iff ends gpu show ?thesis by blast
qed

theorem extractor_gathers_unchecked_flat_offsets_witness:
  "dynamicRNN_outputs 5
     [[[10], [11], [12], [13], [14]], [[20], [21], [22], [23], [24::int]]] [0, 1]
     = Inl InvalidArgumentError \<and>
   dynamicRNN_outputs_gpu [0] 5
     [[[10], [11], [12], [13], [14]], [[20], [21], [22], [23], [24::int]]] [0, 1]
     = Inr [[0], [20]] \<and>
   dynamicRNN_outputs_gpu [0] 5
     [[[10], [11], [12], [13], [14]], [[20], [21], [22], [23], [24::int]]] [3, 0]
     = Inr [[12], [14]] \<and>
   dynamicRNN_outputs 5
     [[[10], [11], [12], [13], [14]], [[20], [21], [22], [23], [24::int]]] [3, 6]
     = Inl InvalidArgumentError"
proof -
  let ?outs = "[[[10], [11], [12], [13], [14]], [[20], [21], [22], [23], [24::int]]]"
  have shape: "\<forall>row \<in> set ?outs. int (length row) = 5" by simp
  have len: "length [a, b] = length ?outs" for a b :: int by simp
  have fits: "index_fits_int32 5 [0, 1]" "index_fits_int32 5 [3, 0]" "index_fits_int32 5 [3, 6]"
    by (simp_all add: index_fits_int32_def int32_def upt_rec)
  note t1 = extractor_gathers_unchecked_flat_offsets[OF shape len fits(1), of "[0]"]
  note t2 = extractor_gathers_unchecked_flat_offsets[OF shape len fits(2), of "[0]"]
  note t3 = extractor_gathers_unchecked_flat_offsets[OF shape len fits(3), of "[0]"]
  from t1 have a: "dynamicRNN_outputs 5 ?outs [0, 1] = Inl InvalidArgumentError" by simp
  from t1 have b: "dynamicRNN_outputs_gpu [0] 5 ?outs [0, 1] = Inr [[0], [20]]"
    by (simp add: upt_rec tf_reshape_def)
  from t2 have c: "dynamicRNN_outputs_gpu [0] 5 ?outs [3, 0] = Inr [[12], [14]]"
    by (simp add: upt_rec tf_reshape_def)
  from t3 have d: "dynamicRNN_outputs 5 ?outs [3, 6] = Inl InvalidArgumentError" by simp
  from a b c d show ?thesis by blast
qed

section \<open>The batch reader\<close>

lemma py_slice_nonneg:
  "0 \<le> i \<Longrightarrow> i \<le> j \<Longrightarrow> py_slice xs i j = take (nat (j - i)) (drop (nat i) xs)"
  by (auto simp: py_slice_def Let_def min_def)

lemma py_slice_empty: "py_slice xs i i = []"
  by (simp add: py_slice_def Let_def)

lemma take_slice:
  assumes "0 \<le> c" "c \<le> n" "0 \<le> b"
  shows "py_slice xs c (min (c + b) n) = take (nat (min b (n - c))) (drop (nat c) xs)"
proof -
  have "min (c + b) n - c = min b (n - c)" by simp
  moreover have "c \<le> min (c + b) n" using assms by simp
  ultimately show ?thesis using py_slice_nonneg[OF assms(1), of "min (c + b) n" xs] by simp
qed

lemma next_batch_frame:
  "snd (next_batch s b) = s\<lparr>batch_id := batch_id (snd (next_batch s b))\<rparr>"
  by (simp add: next_batch_def Let_def)

lemma next_batch_data: "data (snd (next_batch s b)) = data s"
  by (simp add: next_batch_def Let_def)

lemma next_batch_cursor:
  assumes "0 \<le> batch_id s" "batch_id s \<le> int (length (data s))" "0 \<le> b"
  shows "0 \<le> batch_id (snd (next_batch s b)) \<and>
         batch_id (snd (next_batch s b)) \<le> int (length (data s))"
  using assms by (simp add: next_batch_def Let_def)

lemma next_batch_size:
  assumes "0 \<le> batch_id s" "batch_id s \<le> int (length (data s))" "0 \<le> b"
  shows "length (fst (fst (next_batch s b)))
         = (if batch_id s = int (length (data s)) then min (nat b) (length (data s))
            else min (nat b) (length (data s) - nat (batch_id s)))"
    and "batch_id (snd (next_batch s b))
         = (if batch_id s = int (length (data s)) then min b (int (length (data s)))
            else min (batch_id s + b) (int (length (data s))))"
  using assms by (auto simp: next_batch_def Let_def py_slice_nonneg)

lemma next_calls_frame:
  "next_calls s bs = s\<lparr>batch_id := batch_id (next_calls s bs)\<rparr>"
proof (induction bs arbitrary: s)
  case Nil
  show ?case by simp
next
  case (Cons b bs)
  have "next_calls (snd (next_batch s b)) bs
      = (snd (next_batch s b))\<lparr>batch_id := batch_id (next_calls (snd (next_batch s b)) bs)\<rparr>"
    by (rule Cons.IH)
  also have "\<dots> = s\<lparr>batch_id := batch_id (next_calls (snd (next_batch s b)) bs)\<rparr>"
    by (subst next_batch_frame) simp
  finally show ?case by simp
qed

lemma next_calls_cursor:
  "0 \<le> batch_id s \<Longrightarrow> batch_id s \<le> int (length (data s)) \<Longrightarrow> \<forall>b \<in> set bs. 0 \<le> b \<Longrightarrow>
     0 \<le> batch_id (next_calls s bs) \<and> batch_id (next_calls s bs) \<le> int (length (data s))"
proof (induction bs arbitrary: s)
  case Nil
  then show ?case by simp
next
  case (Cons b bs)
  from Cons.prems have b: "0 \<le> b" and rest: "\<forall>b \<in> set bs. 0 \<le> b" by simp_all
  let ?s = "snd (next_batch s b)"
  from next_batch_cursor[OF Cons.prems(1,2) b]
  have "0 \<le> batch_id ?s" "batch_id ?s \<le> int (length (data ?s))"
    by (simp_all add: next_batch_data)
  from Cons.IH[OF this rest] show ?case by (simp add: next_batch_data)
qed

section \<open>C2: the next contiguous slice\<close>

text \<open>
  Claim C2 speaks of every batch size. A negative one is not a count of items for the
  slice of Python: on ten items with the cursor at 0, \<^verbatim>\<open>next(-3)\<close> slices
  \<^verbatim>\<open>data[0:-3]\<close>, seven items, and leaves the cursor at \<open>-3\<close>.
\<close>

theorem negative_batch_size_returns_seven_items:
  "length (fst (fst (next_batch
      \<lparr>data = [[[0]], [[0]], [[0]], [[0]], [[0]], [[0]], [[0]], [[0]], [[0]], [[0]]],
       labels = [[1, 0], [1, 0], [1, 0], [1, 0], [1, 0], [1, 0], [1, 0], [1, 0], [1, 0], [1, 0]],
       seqlen = [1, 1, 1, 1, 1, 1, 1, 1, 1, 1], batch_id = 0\<rparr> (- 3)))) = 7 \<and>
   batch_id (snd (next_batch
      \<lparr>data = [[[0]], [[0]], [[0]], [[0]], [[0]], [[0]], [[0]], [[0]], [[0]], [[0]]],
       labels = [[1, 0], [1, 0], [1, 0], [1, 0], [1, 0], [1, 0], [1, 0], [1, 0], [1, 0], [1, 0]],
       seqlen = [1, 1, 1, 1, 1, 1, 1, 1, 1, 1], batch_id = 0\<rparr> (- 3))) = - 3"
  by (simp add: next_batch_def py_slice_def Let_def)

text \<open>
  Claim C2 as amended. For a data set of \<open>N\<close> items with the cursor in \<open>[0, N]\<close> (where
  the constructor and every call with a non-negative batch size leave it) and every batch
  size \<open>batch_size \<ge> 0\<close>, a call first takes the cursor \<open>c\<close> to be 0 if it equals \<open>N\<close>, then
  returns the \<open>k\<close> items from \<open>c\<close> on of each of the three lists, where \<open>k\<close> is
  \<open>batch_size\<close> or, if fewer remain, the \<open>N - c\<close> items up to the end, with nothing taken
  from the start of the lists; the cursor becomes \<open>min (c + batch_size) N = c + k\<close>. With
  ten items and batch size 4 the calls return 4, 4, 2 and again 4 items.
\<close>

theorem next_batch_contiguous_slice:
  assumes c0: "0 \<le> batch_id s"
    and cN: "batch_id s \<le> int (length (data s))"
    and b0: "0 \<le> batch_size"
    and c: "c = (if batch_id s = int (length (data s)) then 0 else batch_id s)"
    and k: "k = min (nat batch_size) (length (data s) - nat c)"
  shows "next_batch s batch_size =
           ((take k (drop (nat c) (data s)),
             take k (drop (nat c) (labels s)),
             take k (drop (nat c) (seqlen s))),
            s\<lparr>batch_id := min (c + batch_size) (int (length (data s)))\<rparr>) \<and>
         length (take k (drop (nat c) (data s))) = k \<and>
         min (c + batch_size) (int (length (data s))) = c + int k \<and>
         (length (data s) = 10 \<and> batch_id s = 0 \<longrightarrow> batch_sizes s [4, 4, 4, 4] = [4, 4, 2, 4])"
proof -
  let ?N = "int (length (data s))"
  from c0 cN c have cr: "0 \<le> c" "c \<le> ?N" by (simp_all split: if_splits)
  have kk: "nat (min batch_size (?N - c)) = k"
    using cr b0 k by (simp add: min_def) linarith
  have sl: "py_slice xs c (min (c + batch_size) ?N) = take k (drop (nat c) xs)" for xs :: "'x list"
    using take_slice[OF cr b0, of xs] kk by simp
  have "next_batch s batch_size =
      ((py_slice (data s) c (min (c + batch_size) ?N),
        py_slice (labels s) c (min (c + batch_size) ?N),
        py_slice (seqlen s) c (min (c + batch_size) ?N)),
       s\<lparr>batch_id := min (c + batch_size) ?N\<rparr>)"
    using c by (simp add: next_batch_def Let_def)
  then have 1: "next_batch s batch_size =
           ((take k (drop (nat c) (data s)),
             take k (drop (nat c) (labels s)),
             take k (drop (nat c) (seqlen s))),
            s\<lparr>batch_id := min (c + batch_size) ?N\<rparr>)"
    by (simp add: sl)
  have 2: "length (take k (drop (nat c) (data s))) = k"
    using k by simp
  have 3: "min (c + batch_size) ?N = c + int k"
    using cr b0 k by (simp add: min_def) linarith
  have 4: "batch_sizes s [4, 4, 4, 4] = [4, 4, 2, 4]"
    if n: "length (data s) = 10" and z: "batch_id s = 0"
  proof -
    let ?s1 = "snd (next_batch s 4)"
    let ?s2 = "snd (next_batch ?s1 4)"
    let ?s3 = "snd (next_batch ?s2 4)"
    have a1: "length (fst (fst (next_batch s 4))) = 4" "batch_id ?s1 = 4" "length (data ?s1) = 10"
      using next_batch_size[of s 4] n z by (simp_all add: next_batch_data)
    have a2: "length (fst (fst (next_batch ?s1 4))) = 4" "batch_id ?s2 = 8" "length (data ?s2) = 10"
      using next_batch_size[of ?s1 4] a1 by (simp_all add: next_batch_data)
    have a3: "length (fst (fst (next_batch ?s2 4))) = 2" "batch_id ?s3 = 10" "length (data ?s3) = 10"
      using next_batch_size[of ?s2 4] a2 by (simp_all add: next_batch_data)
    have a4: "length (fst (fst (next_batch ?s3 4))) = 4"
      using next_batch_size[of ?s3 4] a3 by simp
    from a1 a2 a3 a4 show ?thesis by simp
  qed
  from 1 2 3 4 show ?thesis by blast
qed

theorem next_batch_contiguous_slice_witness:
  "next_batch \<lparr>data = [[[1 / 2]], [[0]], [[1]]], labels = [[1, 0], [0, 1], [0, 1]],
               seqlen = [1, 1, 1], batch_id = 1\<rparr> 5
   = (([[[0]], [[1]]], [[0, 1], [0, 1]], [1, 1]),
      \<lparr>data = [[[1 / 2]], [[0]], [[1]]], labels = [[1, 0], [0, 1], [0, 1]],
       seqlen = [1, 1, 1], batch_id = 3\<rparr>)"
proof -
  let ?s = "\<lparr>data = [[[1 / 2]], [[0]], [[1]]], labels = [[1, 0], [0, 1], [0, 1]],
             seqlen = [1, 1, 1], batch_id = 1\<rparr> :: dataset"
  have c0: "0 \<le> batch_id ?s" by simp
  have cN: "batch_id ?s \<le> int (length (data ?s))" by simp
  have b0: "(0::int) \<le> 5" by simp
  have c: "(1::int) = (if batch_id ?s = int (length (data ?s)) then 0 else batch_id ?s)" by simp
  have k: "(2::nat) = min (nat 5) (length (data ?s) - nat 1)" by simp
  from next_batch_contiguous_slice[OF c0 cN b0 c k] show ?thesis by simp
qed

section \<open>C9: calls change the cursor only\<close>

text \<open>
  Claim C9 says that the cursor lies in \<open>[0, N]\<close> after every call. A call with a
  negative batch size moves it below 0: on three items, \<^verbatim>\<open>next(2)\<close> leaves the cursor
  at 2 and \<^verbatim>\<open>next(-7)\<close> then at \<open>min (2 - 7) 3 = -5\<close>.
\<close>

theorem negative_batch_size_moves_cursor_below_zero:
  "batch_id (next_calls \<lparr>data = [[[1 / 2]], [[0]], [[1]]], labels = [[1, 0], [0, 1], [0, 1]],
                          seqlen = [1, 1, 1], batch_id = 0\<rparr> [2, - 7]) = - 5"
  by (simp add: next_batch_def Let_def)

text \<open>
  Claim C9 as amended. Whatever the batch sizes of a run of calls, the data set after the
  run is the data set before it but for the cursor: sequences, labels and true lengths are
  never modified. If the cursor starts in \<open>[0, N]\<close>, as the constructor leaves it, and
  every batch size is non-negative, the cursor is in \<open>[0, N]\<close> after every call of the
  run.
\<close>

theorem next_calls_change_cursor_only:
  "next_calls s bs = s\<lparr>batch_id := batch_id (next_calls s bs)\<rparr> \<and>
   data (next_calls s bs) = data s \<and> labels (next_calls s bs) = labels s \<and>
   seqlen (next_calls s bs) = seqlen s \<and>
   (0 \<le> batch_id s \<and> batch_id s \<le> int (length (data s)) \<and> (\<forall>b \<in> set bs. 0 \<le> b) \<longrightarrow>
      (\<forall>n \<le> length bs.
         0 \<le> batch_id (next_calls s (take n bs)) \<and>
         batch_id (next_calls s (take n bs)) \<le> int (length (data s))))"
proof -
  have f: "next_calls s bs = s\<lparr>batch_id := batch_id (next_calls s bs)\<rparr>"
    by (rule next_calls_frame)
  have d: "data (next_calls s bs) = data s" by (subst f) simp
  have l: "labels (next_calls s bs) = labels s" by (subst f) simp
  have q: "seqlen (next_calls s bs) = seqlen s" by (subst f) simp
  have r: "0 \<le> batch_id (next_calls s (take n bs)) \<and>
      batch_id (next_calls s (take n bs)) \<le> int (length (data s))"
    if "0 \<le> batch_id s" "batch_id s \<le> int (length (data s))" "\<forall>b \<in> set bs. 0 \<le> b" for n
  proof -
    from that(3) have "\<forall>b \<in> set (take n bs). 0 \<le> b"
      by (meson in_set_takeD)
    from next_calls_cursor[OF that(1,2) this] show ?thesis .
  qed
  from f d l q r show ?thesis by blast
qed

theorem next_calls_change_cursor_only_witness:
  "next_calls \<lparr>data = [[[1 / 2]], [[0]], [[1]]], labels = [[1, 0], [0, 1], [0, 1]],
               seqlen = [1, 1, 1], batch_id = 0\<rparr> [2, 2, 2]
   = \<lparr>data = [[[1 / 2]], [[0]], [[1]]], labels = [[1, 0], [0, 1], [0, 1]],
      seqlen = [1, 1, 1], batch_id = 2\<rparr> \<and>
   0 \<le> batch_id (next_calls \<lparr>data = [[[1 / 2]], [[0]], [[1]]], labels = [[1, 0], [0, 1], [0, 1]],
               seqlen = [1, 1, 1], batch_id = 0\<rparr> (take 2 [2, 2, 2])) \<and>
   batch_id (next_calls \<lparr>data = [[[1 / 2]], [[0]], [[1]]], labels = [[1, 0], [0, 1], [0, 1]],
               seqlen = [1, 1, 1], batch_id = 0\<rparr> (take 2 [2, 2, 2])) \<le> 3"
proof -
  let ?s = "\<lparr>data = [[[1 / 2]], [[0]], [[1]]], labels = [[1, 0], [0, 1], [0, 1]],
             seqlen = [1, 1, 1], batch_id = 0\<rparr> :: dataset"
  let ?bs = "[2, 2, 2] :: int list"
  have c: "batch_id (next_calls ?s ?bs) = 2"
    by (simp add: next_batch_def Let_def)
  have h: "0 \<le> batch_id ?s \<and> batch_id ?s \<le> int (length (data ?s)) \<and> (\<forall>b \<in> set ?bs. 0 \<le> b)"
    by simp
  from next_calls_change_cursor_only[of ?s ?bs]
  have f: "next_calls ?s ?bs = ?s\<lparr>batch_id := batch_id (next_calls ?s ?bs)\<rparr>"
    and r: "0 \<le> batch_id ?s \<and> batch_id ?s \<le> int (length (data ?s)) \<and> (\<forall>b \<in> set ?bs. 0 \<le> b) \<longrightarrow>
      (\<forall>n \<le> length ?bs.
         0 \<le> batch_id (next_calls ?s (take n ?bs)) \<and>
         batch_id (next_calls ?s (take n ?bs)) \<le> int (length (data ?s)))"
    by blast+
  from r h have a: "\<forall>n \<le> length ?bs.
         0 \<le> batch_id (next_calls ?s (take n ?bs)) \<and>
         batch_id (next_calls ?s (take n ?bs)) \<le> int (length (data ?s))"
    by blast
  have "0 \<le> batch_id (next_calls ?s (take 2 ?bs)) \<and>
         batch_id (next_calls ?s (take 2 ?bs)) \<le> int (length (data ?s))"
    by (rule a[rule_format]) simp
  moreover from f c have "next_calls ?s ?bs = ?s\<lparr>batch_id := 2\<rparr>" by simp
  ultimately show ?thesis by simp
qed

section \<open>C10: a batch size of zero\<close>

text \<open>
  Claim C10. On a data set with \<open>N > 0\<close> items and the cursor at \<open>p\<close> with
  \<open>0 \<le> p < N\<close>, a call with batch size 0 returns three empty slices and leaves the cursor
  at \<open>p\<close>; so any number of such calls leaves the data set, cursor included, as it was:
  the cursor never advances and never wraps.
\<close>

theorem zero_batch_size_is_identity:
  assumes "0 < length (data s)" and "0 \<le> batch_id s" and "batch_id s < int (length (data s))"
  shows "next_batch s 0 = (([], [], []), s) \<and>
         batch_id (snd (next_batch s 0)) = batch_id s \<and>
         next_calls s (replicate n 0) = s"
proof -
  have one: "next_batch s 0 = (([], [], []), s)"
    using assms by (simp add: next_batch_def Let_def py_slice_empty)
  have "next_calls s (replicate n 0) = s"
    by (induction n) (simp_all add: one)
  with one show ?thesis by simp
qed

theorem zero_batch_size_is_identity_witness:
  "next_batch \<lparr>data = [[[1 / 2]], [[0]], [[1]]], labels = [[1, 0], [0, 1], [0, 1]],
               seqlen = [1, 1, 1], batch_id = 2\<rparr> 0
   = (([], [], []),
      \<lparr>data = [[[1 / 2]], [[0]], [[1]]], labels = [[1, 0], [0, 1], [0, 1]],
       seqlen = [1, 1, 1], batch_id = 2\<rparr>) \<and>
   next_calls \<lparr>data = [[[1 / 2]], [[0]], [[1]]], labels = [[1, 0], [0, 1], [0, 1]],
               seqlen = [1, 1, 1], batch_id = 2\<rparr> (replicate 4 0)
   = \<lparr>data = [[[1 / 2]], [[0]], [[1]]], labels = [[1, 0], [0, 1], [0, 1]],
      seqlen = [1, 1, 1], batch_id = 2\<rparr>"
proof -
  let ?s = "\<lparr>data = [[[1 / 2]], [[0]], [[1]]], labels = [[1, 0], [0, 1], [0, 1]],
             seqlen = [1, 1, 1], batch_id = 2\<rparr> :: dataset"
  have h: "0 < length (data ?s)" "0 \<le> batch_id ?s" "batch_id ?s < int (length (data ?s))"
    by simp_all
  from zero_batch_size_is_identity[OF h, of 4] show ?thesis by blast
qed

section \<open>The constructor: one sample and the loop\<close>

lemma randint_Inr:
  "randint src a b k = Inr (v, k') \<Longrightarrow> a \<le> v \<and> v \<le> b \<and> k' = Suc k"
proof -
  assume r: "randint src a b k = Inr (v, k')"
  then have ab: "a \<le> b" and v: "v = a + int (src k mod nat (b - a + 1))" and k: "k' = Suc k"
    by (auto simp: randint_def split: if_splits)
  from ab have "0 < nat (b - a + 1)" by simp
  then have "src k mod nat (b - a + 1) < nat (b - a + 1)" by (rule mod_less_divisor)
  with ab v k show ?thesis by linarith
qed

lemma randint_empty: "b < a \<Longrightarrow> randint src a b k = Inl ValueError"
  by (simp add: randint_def)

lemma py_range_conv: "py_range a (a + n) = map (\<lambda>j. a + int j) [0..<nat n]"
  by (auto simp: py_range_def intro!: nth_equalityI)

lemma bind_Inr:
  "(case x of Inl e \<Rightarrow> Inl e | Inr y \<Rightarrow> f y) = Inr z \<Longrightarrow> \<exists>y. x = Inr y \<and> f y = Inr z"
  by (cases x) simp_all

lemma map_err_Inr:
  assumes "\<And>x y. f x = Inr y \<Longrightarrow> y = g x"
  shows "map_err f xs = Inr ys \<Longrightarrow> ys = map g xs"
proof (induction xs arbitrary: ys)
  case Nil
  then show ?case by simp
next
  case (Cons x xs)
  from Cons.prems have "(case f x of Inl e \<Rightarrow> Inl e
      | Inr y \<Rightarrow> (case map_err f xs of Inl e \<Rightarrow> Inl e | Inr ys \<Rightarrow> Inr (y # ys))) = Inr ys"
    by simp
  from bind_Inr[OF this] obtain y where
    y: "f x = Inr y" and
    r: "(case map_err f xs of Inl e \<Rightarrow> Inl e | Inr ys \<Rightarrow> Inr (y # ys)) = Inr ys"
    by blast
  from bind_Inr[OF r] obtain zs where zs: "map_err f xs = Inr zs" and e: "Inr (y # zs) = (Inr ys :: error + 'b list)"
    by blast
  from e have "ys = y # zs" by simp
  with assms[OF y] Cons.IH[OF zs] show ?case by simp
qed

lemma float_div_Inr:
  "float_div i max_value = Inr q \<Longrightarrow> max_value \<noteq> 0 \<and> q = of_int i / of_int max_value"
  by (auto simp: float_div_def split: if_splits)

lemma linear_values_Inr:
  assumes "linear_values max_value rand_start len = Inr s"
  shows "s = map (\<lambda>j. [of_int (rand_start + int j) / of_int max_value]) [0..<nat len]"
proof -
  have "y = [of_int i / of_int max_value]"
    if "(case float_div i max_value of Inl e \<Rightarrow> Inl e | Inr q \<Rightarrow> Inr [q]) = Inr y" for i y
  proof -
    from bind_Inr[OF that] obtain q where "float_div i max_value = Inr q" "Inr [q] = (Inr y :: error + pyfloat list)"
      by blast
    with float_div_Inr[of i max_value q] show ?thesis by simp
  qed
  note el = this
  have "map_err (\<lambda>i. case float_div i max_value of Inl e \<Rightarrow> Inl e | Inr q \<Rightarrow> Inr [q])
      (py_range rand_start (rand_start + len)) = Inr s"
    using assms by (simp add: linear_values_def)
  from map_err_Inr[where g = "\<lambda>i. [of_int i / of_int max_value]", OF el this]
  have "s = map (\<lambda>i. [of_int i / of_int max_value]) (py_range rand_start (rand_start + len))"
    .
  then show ?thesis by (simp add: py_range_conv comp_def)
qed

lemma random_values_Inr:
  "random_values src max_value n k = Inr (s, k') \<Longrightarrow>
     length s = n \<and> k' = k + n \<and> (0 < n \<longrightarrow> 0 < max_value) \<and>
     (\<forall>v \<in> set s. \<exists>r. 0 \<le> r \<and> r \<le> max_value \<and> v = [of_int r / of_int max_value])"
proof (induction n arbitrary: k s)
  case 0
  then show ?case by simp
next
  case (Suc n)
  from Suc.prems obtain v k1 q qs where
    r: "randint src 0 max_value k = Inr (v, k1)" and
    d: "float_div v max_value = Inr q" and
    rest: "random_values src max_value n k1 = Inr (qs, k')" and
    s: "s = [q] # qs"
    by (auto split: sum.splits prod.splits)
  from randint_Inr[OF r] have v: "0 \<le> v" "v \<le> max_value" "k1 = Suc k" by simp_all
  from d have m: "max_value \<noteq> 0" and q: "q = of_int v / of_int max_value"
    by (auto simp: float_div_def split: if_splits)
  from Suc.IH[OF rest] v m q s show ?case by auto
qed

lemma gen_sample_Inr:
  assumes "gen_sample src max_seq_len min_seq_len max_value k = Inr ((s, lab, len), k')"
  shows "min_seq_len \<le> len \<and> len \<le> max_seq_len \<and>
         (if fst (random_random src (Suc k)) < 1 / 2
          then lab = [1, 0] \<and>
               (\<exists>rand_start. 0 \<le> rand_start \<and> rand_start \<le> max_value - len \<and>
                  s = map (\<lambda>j. [of_int (rand_start + int j) / of_int max_value]) [0..<nat len]
                      @ padding max_seq_len len)
          else lab = [0, 1] \<and>
               (\<exists>vals. random_values src max_value (nat len) (Suc (Suc k)) = Inr (vals, k') \<and>
                  s = vals @ padding max_seq_len len))"
proof -
  from assms obtain l k1 where r: "randint src min_seq_len max_seq_len k = Inr (l, k1)"
    by (auto simp: gen_sample_def split: sum.splits)
  from randint_Inr[OF r] have l: "min_seq_len \<le> l" "l \<le> max_seq_len" "k1 = Suc k" by simp_all
  obtain u k2 where c: "random_random src (Suc k) = (u, k2)" by fastforce
  then have k2: "k2 = Suc (Suc k)" by (simp add: random_random_def)
  have gs: "gen_sample src max_seq_len min_seq_len max_value k =
      (if u < 1 / 2 then
         (case randint src 0 (max_value - l) k2 of
            Inl e \<Rightarrow> Inl e
          | Inr (rand_start, k3) \<Rightarrow>
              (case linear_values max_value rand_start l of
                 Inl e \<Rightarrow> Inl e
               | Inr s \<Rightarrow> Inr ((s @ padding max_seq_len l, [1, 0], l), k3)))
       else
         (case random_values src max_value (nat l) k2 of
            Inl e \<Rightarrow> Inl e
          | Inr (s, k3) \<Rightarrow> Inr ((s @ padding max_seq_len l, [0, 1], l), k3)))"
    using r c l(3) by (simp add: gen_sample_def)
  show ?thesis
  proof (cases "u < 1 / 2")
    case True
    with assms gs have "(case randint src 0 (max_value - l) k2 of
            Inl e \<Rightarrow> Inl e
          | Inr (rand_start, k3) \<Rightarrow>
              (case linear_values max_value rand_start l of
                 Inl e \<Rightarrow> Inl e
               | Inr s \<Rightarrow> Inr ((s @ padding max_seq_len l, [1, 0], l), k3)))
        = Inr ((s, lab, len), k')" by simp
    from bind_Inr[OF this] obtain p where
      rp: "randint src 0 (max_value - l) k2 = Inr p" and
      in1: "(case p of (rand_start, k3) \<Rightarrow>
              (case linear_values max_value rand_start l of
                 Inl e \<Rightarrow> Inl e
               | Inr s \<Rightarrow> Inr ((s @ padding max_seq_len l, [1, 0], l), k3)))
            = Inr ((s, lab, len), k')" by blast
    obtain st k3 where p: "p = (st, k3)" by (cases p)
    from in1 p have "(case linear_values max_value st l of
                 Inl e \<Rightarrow> Inl e
               | Inr s \<Rightarrow> Inr ((s @ padding max_seq_len l, [1, 0], l), k3))
            = Inr ((s, lab, len), k')" by simp
    from bind_Inr[OF this] obtain vs where
      lv: "linear_values max_value st l = Inr vs" and
      eq: "Inr ((vs @ padding max_seq_len l, [1, 0], l), k3) = (Inr ((s, lab, len), k') :: error + sample \<times> nat)"
      by blast
    from rp p have rs: "randint src 0 (max_value - l) k2 = Inr (st, k3)" by simp
    from eq[unfolded sum.inject prod.inject]
    have res: "s = vs @ padding max_seq_len l" "lab = [1, 0]" "len = l" by blast+
    from randint_Inr[OF rs] have st: "0 \<le> st" "st \<le> max_value - l" by simp_all
    from lv have vsq: "vs = map (\<lambda>j. [of_int (st + int j) / of_int max_value]) [0..<nat l]"
      by (rule linear_values_Inr)
    from True c have u: "fst (random_random src (Suc k)) < 1 / 2" by simp
    have "\<exists>rand_start. 0 \<le> rand_start \<and> rand_start \<le> max_value - len \<and>
        s = map (\<lambda>j. [of_int (rand_start + int j) / of_int max_value]) [0..<nat len]
            @ padding max_seq_len len"
      using st res vsq by (intro exI[of _ st]) simp
    with l res u show ?thesis by simp
  next
    case False
    with assms gs have "(case random_values src max_value (nat l) k2 of
            Inl e \<Rightarrow> Inl e
          | Inr (s, k3) \<Rightarrow> Inr ((s @ padding max_seq_len l, [0, 1], l), k3))
        = Inr ((s, lab, len), k')" by simp
    from bind_Inr[OF this] obtain p where
      rp: "random_values src max_value (nat l) k2 = Inr p" and
      in1: "(case p of (s, k3) \<Rightarrow> Inr ((s @ padding max_seq_len l, [0, 1], l), k3))
            = (Inr ((s, lab, len), k') :: error + sample \<times> nat)" by blast
    obtain vs k3 where p: "p = (vs, k3)" by (cases p)
    from in1 p have "Inr ((vs @ padding max_seq_len l, [0, 1], l), k3)
        = (Inr ((s, lab, len), k') :: error + sample \<times> nat)" by (simp only: prod.case)
    from this[unfolded sum.inject prod.inject]
    have res: "s = vs @ padding max_seq_len l" "lab = [0, 1]" "len = l" "k3 = k'" by blast+
    from rp p res k2 have rv: "random_values src max_value (nat l) (Suc (Suc k)) = Inr (vs, k')"
      by simp
    from False c have "\<not> fst (random_random src (Suc k)) < 1 / 2" by simp
    with l res rv show ?thesis by simp
  qed
qed

lemma gen_loop_Inr:
  "gen_loop src max_seq_len min_seq_len max_value n (acc, k) = Inr (acc', k') \<Longrightarrow>
     \<exists>new. acc' = acc @ new \<and> length new = n \<and>
       (\<forall>smp \<in> set new. \<exists>k1 k2. gen_sample src max_seq_len min_seq_len max_value k1 = Inr (smp, k2))"
proof (induction n arbitrary: acc k)
  case 0
  then show ?case by simp
next
  case (Suc n)
  from Suc.prems obtain smp k1 where
    g: "gen_sample src max_seq_len min_seq_len max_value k = Inr (smp, k1)" and
    rest: "gen_loop src max_seq_len min_seq_len max_value n (acc @ [smp], k1) = Inr (acc', k')"
    by (auto split: sum.splits)
  from Suc.IH[OF rest] obtain new where
    "acc' = (acc @ [smp]) @ new" "length new = n"
    "\<forall>smp \<in> set new. \<exists>k1 k2. gen_sample src max_seq_len min_seq_len max_value k1 = Inr (smp, k2)"
    by blast
  with g show ?case by (intro exI[of _ "smp # new"]) auto
qed

lemma ToySequenceData_Inr:
  assumes "ToySequenceData src n_samples max_seq_len min_seq_len max_value = Inr ds"
  shows "\<exists>smps. length smps = nat n_samples \<and>
           ds = \<lparr>data = map fst smps, labels = map (fst \<circ> snd) smps,
                 seqlen = map (snd \<circ> snd) smps, batch_id = 0\<rparr> \<and>
           (\<forall>smp \<in> set smps. \<exists>k k'. gen_sample src max_seq_len min_seq_len max_value k = Inr (smp, k'))"
proof -
  from assms obtain acc k where
    g: "gen_loop src max_seq_len min_seq_len max_value (nat n_samples) ([], 0) = Inr (acc, k)" and
    ds: "ds = \<lparr>data = map fst acc, labels = map (fst \<circ> snd) acc,
               seqlen = map (snd \<circ> snd) acc, batch_id = 0\<rparr>"
    by (auto simp: ToySequenceData_def split: sum.splits)
  from gen_loop_Inr[OF g] ds show ?thesis by auto
qed

lemma ToySequenceData_nth:
  assumes "ToySequenceData src n_samples max_seq_len min_seq_len max_value = Inr ds"
    and "i < length (labels ds)"
  shows "length (data ds) = nat n_samples \<and> length (labels ds) = nat n_samples \<and>
         length (seqlen ds) = nat n_samples \<and>
         (\<exists>k k'. gen_sample src max_seq_len min_seq_len max_value k
                   = Inr ((data ds ! i, labels ds ! i, seqlen ds ! i), k'))"
proof -
  from ToySequenceData_Inr[OF assms(1)] obtain smps where
    n: "length smps = nat n_samples" and
    ds: "ds = \<lparr>data = map fst smps, labels = map (fst \<circ> snd) smps,
               seqlen = map (snd \<circ> snd) smps, batch_id = 0\<rparr>" and
    a: "\<forall>smp \<in> set smps. \<exists>k k'. gen_sample src max_seq_len min_seq_len max_value k = Inr (smp, k')"
    by blast
  from assms(2) ds have i: "i < length smps" by simp
  then have "smps ! i \<in> set smps" by simp
  with a obtain k k' where "gen_sample src max_seq_len min_seq_len max_value k = Inr (smps ! i, k')"
    by blast
  moreover from i ds have "smps ! i = (data ds ! i, labels ds ! i, seqlen ds ! i)"
    by (simp add: prod_eq_iff)
  ultimately show ?thesis using n ds by auto
qed

lemma gen_sample_shape:
  assumes "gen_sample src max_seq_len min_seq_len max_value k = Inr ((s, lab, len), k')"
  shows "length s = nat len + nat (max_seq_len - len) \<and>
         (\<forall>j. nat len \<le> j \<and> j < length s \<longrightarrow> s ! j = [0])"
proof -
  from gen_sample_Inr[OF assms] obtain vs where
    s: "s = vs @ padding max_seq_len len" and n: "length vs = nat len"
    by (auto split: if_splits dest: random_values_Inr)
  have "s ! j = [0]" if "nat len \<le> j" "j < length s" for j
    using that s n by (simp add: nth_append padding_def)
  with s n show ?thesis by (simp add: padding_def)
qed

lemma gen_sample_empty_range:
  "max_seq_len < min_seq_len \<Longrightarrow>
     gen_sample src max_seq_len min_seq_len max_value k = Inl ValueError"
  by (simp add: gen_sample_def randint_empty)

subsection \<open>Concrete runs\<close>

lemma not_overflow_small: "\<bar>i\<bar> < 2 ^ 63 \<Longrightarrow> \<not> float_overflow i"
  by (simp add: float_overflow_def)

lemma map_err_all: "\<forall>x \<in> set xs. f x = Inr (g x) \<Longrightarrow> map_err f xs = Inr (map g xs)"
  by (induction xs) simp_all

lemma linear_values_small:
  assumes "0 \<le> rand_start" "rand_start + len < 2 ^ 63" "0 < max_value" "max_value < 2 ^ 63"
  shows "linear_values max_value rand_start len
         = Inr (map (\<lambda>j. [of_int (rand_start + int j) / of_int max_value]) [0..<nat len])"
proof -
  have "(case float_div i max_value of Inl e \<Rightarrow> Inl e | Inr q \<Rightarrow> Inr [q])
      = Inr [of_int i / of_int max_value]"
    if "i \<in> set (py_range rand_start (rand_start + len))" for i
  proof -
    from that assms have "\<bar>i\<bar> < 2 ^ 63" by (auto simp: py_range_def)
    with assms show ?thesis by (simp add: float_div_def not_overflow_small)
  qed
  then have "linear_values max_value rand_start len
      = Inr (map (\<lambda>i. [of_int i / of_int max_value]) (py_range rand_start (rand_start + len)))"
    unfolding linear_values_def by (intro map_err_all) blast
  then show ?thesis by (simp add: py_range_conv comp_def)
qed

lemma run_linear:
  "ToySequenceData (\<lambda>k. 9) 1 4 1 5 = Inr \<lparr>data = [[[1 / 5], [2 / 5], [0], [0]]], labels = [[1, 0]], seqlen = [2], batch_id = 0\<rparr>"
proof -
  have p: "padding 4 2 = [[0], [0]]"
    by (simp add: padding_def numeral_2_eq_2)
  have l: "linear_values 5 1 2 = Inr [[1 / 5], [2 / 5]]"
    by (simp add: linear_values_small upt_rec)
  have g: "gen_sample (\<lambda>k. 9) 4 1 5 0 = Inr (([[1 / 5], [2 / 5], [0], [0]], [1, 0], 2), 3)"
    by (simp add: gen_sample_def randint_def random_random_def l p)
  show ?thesis by (simp add: ToySequenceData_def g)
qed

lemma run_random:
  "ToySequenceData (\<lambda>k. 4503599627370499) 1 3 1 7 = Inr \<lparr>data = [[[3 / 7], [3 / 7], [0]]], labels = [[0, 1]], seqlen = [2], batch_id = 0\<rparr>"
proof -
  have p: "padding 3 2 = [[0]]"
    by (simp add: padding_def)
  have v: "random_values (\<lambda>k. 4503599627370499) 7 2 (Suc (Suc 0)) = Inr ([[3 / 7], [3 / 7]], 4)"
    by (simp add: numeral_2_eq_2 randint_def float_div_def not_overflow_small)
  have g: "gen_sample (\<lambda>k. 4503599627370499) 3 1 7 0
      = Inr (([[3 / 7], [3 / 7], [0]], [0, 1], 2), 4)"
    by (simp add: gen_sample_def randint_def random_random_def v p)
  show ?thesis by (simp add: ToySequenceData_def g)
qed

section \<open>C3: generated data sets are well formed\<close>

text \<open>
  Claim C3 asks only for \<open>min_seq_len \<le> max_seq_len \<le> max_value\<close>. The constructor
  does not look at the sign of its parameters: with \<open>min_seq_len = -1\<close>, \<open>max_seq_len = 2\<close>
  and a draw of length \<open>-1\<close> the sequence is empty and the padding has
  \<open>2 - (-1) = 3\<close> entries, one more than \<open>max_seq_len\<close>.
\<close>

theorem negative_length_pads_beyond_max_seq_len:
  "ToySequenceData (\<lambda>k. 0) 1 2 (- 1) 2
   = Inr \<lparr>data = [[[0], [0], [0]]], labels = [[1, 0]], seqlen = [- 1], batch_id = 0\<rparr>"
proof -
  have p: "padding 2 (- 1) = [[0], [0], [0]]"
    by (simp add: padding_def numeral_3_eq_3)
  have g: "gen_sample (\<lambda>k. 0) 2 (- 1) 2 0 = Inr (([[0], [0], [0]], [1, 0], - 1), 3)"
    by (simp add: gen_sample_def randint_def random_random_def linear_values_small p)
  show ?thesis by (simp add: ToySequenceData_def g)
qed

text \<open>
  Claim C3 as amended. Every data set that the constructor returns for \<open>n_samples \<ge> 0\<close>
  and \<open>0 \<le> min_seq_len \<le> max_seq_len \<le> max_value\<close> is well formed: the three lists
  have length \<open>n_samples\<close>; every true length is in \<open>[min_seq_len, max_seq_len]\<close>; every
  sequence has \<open>max_seq_len\<close> timesteps; every entry at an index from the true length on is
  the zero vector.
\<close>

theorem generated_dataset_well_formed:
  assumes ds: "ToySequenceData src n_samples max_seq_len min_seq_len max_value = Inr ds"
    and n: "0 \<le> n_samples"
    and p: "0 \<le> min_seq_len" "min_seq_len \<le> max_seq_len" "max_seq_len \<le> max_value"
  shows "int (length (data ds)) = n_samples \<and>
         int (length (labels ds)) = n_samples \<and>
         int (length (seqlen ds)) = n_samples \<and>
         (\<forall>i < length (data ds).
            min_seq_len \<le> seqlen ds ! i \<and> seqlen ds ! i \<le> max_seq_len \<and>
            int (length (data ds ! i)) = max_seq_len \<and>
            (\<forall>j. nat (seqlen ds ! i) \<le> j \<and> j < length (data ds ! i) \<longrightarrow>
                 data ds ! i ! j = [0]))"
proof -
  have item: "min_seq_len \<le> seqlen ds ! i \<and> seqlen ds ! i \<le> max_seq_len \<and>
      int (length (data ds ! i)) = max_seq_len \<and>
      (\<forall>j. nat (seqlen ds ! i) \<le> j \<and> j < length (data ds ! i) \<longrightarrow> data ds ! i ! j = [0])"
    if "i < length (labels ds)" for i
  proof -
    from ToySequenceData_nth[OF ds that] obtain k k' where
      g: "gen_sample src max_seq_len min_seq_len max_value k
            = Inr ((data ds ! i, labels ds ! i, seqlen ds ! i), k')"
      by blast
    from gen_sample_Inr[OF g] have r: "min_seq_len \<le> seqlen ds ! i" "seqlen ds ! i \<le> max_seq_len"
      by simp_all
    with p gen_sample_shape[OF g] show ?thesis by simp
  qed
  from ToySequenceData_Inr[OF ds] obtain smps where
    "length smps = nat n_samples"
    "ds = \<lparr>data = map fst smps, labels = map (fst \<circ> snd) smps,
           seqlen = map (snd \<circ> snd) smps, batch_id = 0\<rparr>"
    by blast
  then have lens: "length (data ds) = nat n_samples" "length (labels ds) = nat n_samples"
    "length (seqlen ds) = nat n_samples" by simp_all
  with n have "int (length (data ds)) = n_samples" "int (length (labels ds)) = n_samples"
    "int (length (seqlen ds)) = n_samples" by simp_all
  moreover have "\<forall>i < length (data ds).
              min_seq_len \<le> seqlen ds ! i \<and> seqlen ds ! i \<le> max_seq_len \<and>
              int (length (data ds ! i)) = max_seq_len \<and>
              (\<forall>j. nat (seqlen ds ! i) \<le> j \<and> j < length (data ds ! i) \<longrightarrow>
                   data ds ! i ! j = [0])"
    using item lens by simp
  ultimately show ?thesis by blast
qed

theorem generated_dataset_well_formed_witness:
  "ToySequenceData (\<lambda>k. 9) 1 4 1 5 = Inr \<lparr>data = [[[1 / 5], [2 / 5], [0], [0]]], labels = [[1, 0]], seqlen = [2], batch_id = 0\<rparr> \<and>
   int (length (data \<lparr>data = [[[1 / 5], [2 / 5], [0], [0]]], labels = [[1, 0]], seqlen = [2], batch_id = 0\<rparr>)) = 1 \<and>
   int (length (data \<lparr>data = [[[1 / 5], [2 / 5], [0], [0]]], labels = [[1, 0]], seqlen = [2], batch_id = 0\<rparr> ! 0)) = 4 \<and>
   seqlen \<lparr>data = [[[1 / 5], [2 / 5], [0], [0]]], labels = [[1, 0]], seqlen = [2], batch_id = 0\<rparr> ! 0 \<le> 4"
proof -
  let ?ds = "\<lparr>data = [[[1 / 5], [2 / 5], [0], [0]]], labels = [[1, 0]], seqlen = [2], batch_id = 0\<rparr> :: dataset"
  have h: "(0::int) \<le> 1" "(0::int) \<le> 1" "(1::int) \<le> 4" "(4::int) \<le> 5" by simp_all
  from generated_dataset_well_formed[OF run_linear h]
  have n: "int (length (data ?ds)) = 1" and
    a: "\<forall>i < length (data ?ds).
              1 \<le> seqlen ?ds ! i \<and> seqlen ?ds ! i \<le> 4 \<and>
              int (length (data ?ds ! i)) = 4 \<and>
              (\<forall>j. nat (seqlen ?ds ! i) \<le> j \<and> j < length (data ?ds ! i) \<longrightarrow>
                   data ?ds ! i ! j = [0])"
    by blast+
  from n have "0 < length (data ?ds)" by simp
  with a have "seqlen ?ds ! 0 \<le> 4 \<and> int (length (data ?ds ! 0)) = 4" by blast
  with n run_linear show ?thesis by blast
qed

section \<open>C6: invalid parameters\<close>

text \<open>
  Claim C6 says that the constructor fails on \<open>max_value < max_seq_len\<close>. It has no check of
  its parameters; it fails only where a draw of \<^verbatim>\<open>random.randint\<close> has an empty range.
  With \<open>max_seq_len = 5\<close> and \<open>max_value = 3\<close>, a drawn length of 2 leaves the range
  \<open>[0, 1]\<close> for the start, and a data set is returned.
\<close>

theorem max_value_below_max_seq_len_returns_dataset:
  "ToySequenceData (\<lambda>k. 11) 1 5 1 3
   = Inr \<lparr>data = [[[1 / 3], [2 / 3], [0], [0], [0]]], labels = [[1, 0]], seqlen = [2],
          batch_id = 0\<rparr>"
proof -
  have p: "padding 5 2 = [[0], [0], [0]]"
    by (simp add: padding_def numeral_3_eq_3)
  have l: "linear_values 3 1 2 = Inr [[1 / 3], [2 / 3]]"
    by (simp add: linear_values_small upt_rec)
  have g: "gen_sample (\<lambda>k. 11) 5 1 3 0
      = Inr (([[1 / 3], [2 / 3], [0], [0], [0]], [1, 0], 2), 3)"
    by (simp add: gen_sample_def randint_def random_random_def l p)
  show ?thesis by (simp add: ToySequenceData_def g)
qed

text \<open>
  Claim C6 as amended. With \<open>min_seq_len > max_seq_len\<close> and at least one sample the
  constructor fails at the first draw of a length, with the \<^verbatim>\<open>ValueError\<close> of
  \<^verbatim>\<open>random.randint\<close> on an empty range. With \<open>max_value < max_seq_len\<close> it need not fail;
  whenever it returns a data set, every true length is in \<open>[min_seq_len, max_seq_len]\<close>,
  every sequence of the linear class has a true length of at most \<open>max_value\<close>, and a
  sequence of the random class with a positive true length was drawn with
  \<open>max_value > 0\<close>.
\<close>

theorem invalid_parameters_errors:
  "(max_seq_len < min_seq_len \<and> 0 < n_samples \<longrightarrow>
      ToySequenceData src n_samples max_seq_len min_seq_len max_value = Inl ValueError) \<and>
   (\<forall>ds. ToySequenceData src n_samples max_seq_len min_seq_len max_value = Inr ds \<longrightarrow>
      (\<forall>i < length (labels ds).
         min_seq_len \<le> seqlen ds ! i \<and> seqlen ds ! i \<le> max_seq_len \<and>
         (labels ds ! i = [1, 0] \<longrightarrow> seqlen ds ! i \<le> max_value) \<and>
         (labels ds ! i = [0, 1] \<and> 0 < seqlen ds ! i \<longrightarrow> 0 < max_value)))"
proof -
  have a: "ToySequenceData src n_samples max_seq_len min_seq_len max_value = Inl ValueError"
    if "max_seq_len < min_seq_len" "0 < n_samples"
  proof -
    from that(2) obtain m where m: "nat n_samples = Suc m"
      by (cases "nat n_samples") simp_all
    show ?thesis
      by (simp add: ToySequenceData_def m gen_sample_empty_range[OF that(1)])
  qed
  have b: "min_seq_len \<le> seqlen ds ! i \<and> seqlen ds ! i \<le> max_seq_len \<and>
         (labels ds ! i = [1, 0] \<longrightarrow> seqlen ds ! i \<le> max_value) \<and>
         (labels ds ! i = [0, 1] \<and> 0 < seqlen ds ! i \<longrightarrow> 0 < max_value)"
    if ds: "ToySequenceData src n_samples max_seq_len min_seq_len max_value = Inr ds"
      and i: "i < length (labels ds)" for ds i
  proof -
    from ToySequenceData_nth[OF ds i] obtain k k' where
      g: "gen_sample src max_seq_len min_seq_len max_value k
            = Inr ((data ds ! i, labels ds ! i, seqlen ds ! i), k')"
      by blast
    note r = gen_sample_Inr[OF g]
    show ?thesis
    proof (cases "fst (random_random src (Suc k)) < 1 / 2")
      case True
      with r show ?thesis by auto
    next
      case False
      with r obtain vals where
        "random_values src max_value (nat (seqlen ds ! i)) (Suc (Suc k)) = Inr (vals, k')"
        and "labels ds ! i = [0, 1]" by auto
      from random_values_Inr[OF this(1)] this(2) r show ?thesis by auto
    qed
  qed
  from a b show ?thesis by blast
qed

theorem invalid_parameters_errors_witness:
  "ToySequenceData (\<lambda>k. 0) 1 2 5 2 = Inl ValueError"
  using invalid_parameters_errors[of 2 5 1 "\<lambda>k. 0" 2] by simp

section \<open>C8: labels\<close>

text \<open>
  Claim C8. Every label of a generated data set is one-hot over two classes: it is
  \<open>[1, 0]\<close> or \<open>[0, 1]\<close>, so it has two entries, exactly one of them 1 and exactly one 0.
  The class follows the branch taken: for a given random source, a sample generated at
  position \<open>k\<close> of the source has the label \<open>[1, 0]\<close> if the draw of
  \<^verbatim>\<open>random.random()\<close> at position \<open>k + 1\<close> is below one half, and then its sequence is
  the padded linear one; otherwise it has the label \<open>[0, 1]\<close> and its sequence is the
  padded list of random draws.
\<close>

theorem labels_one_hot_and_match_branch:
  assumes ds: "ToySequenceData src n_samples max_seq_len min_seq_len max_value = Inr ds"
    and i: "i < length (labels ds)"
  shows "(\<forall>k s lab len k'. gen_sample src max_seq_len min_seq_len max_value k = Inr ((s, lab, len), k') \<longrightarrow>
            lab = (if fst (random_random src (Suc k)) < 1 / 2 then [1, 0] else [0, 1])) \<and>
         (labels ds ! i = [1, 0] \<or> labels ds ! i = [0, 1]) \<and>
         length (labels ds ! i) = 2 \<and>
         length (filter (\<lambda>x. x = 1) (labels ds ! i)) = 1 \<and>
         length (filter (\<lambda>x. x = 0) (labels ds ! i)) = 1 \<and>
         (\<exists>k k'. gen_sample src max_seq_len min_seq_len max_value k
                    = Inr ((data ds ! i, labels ds ! i, seqlen ds ! i), k') \<and>
            (if fst (random_random src (Suc k)) < 1 / 2
             then labels ds ! i = [1, 0] \<and>
                  (\<exists>rand_start. 0 \<le> rand_start \<and> rand_start \<le> max_value - seqlen ds ! i \<and>
                     data ds ! i
                       = map (\<lambda>j. [of_int (rand_start + int j) / of_int max_value])
                           [0..<nat (seqlen ds ! i)]
                         @ padding max_seq_len (seqlen ds ! i))
             else labels ds ! i = [0, 1] \<and>
                  (\<exists>vals. random_values src max_value (nat (seqlen ds ! i)) (Suc (Suc k))
                            = Inr (vals, k') \<and>
                     data ds ! i = vals @ padding max_seq_len (seqlen ds ! i))))"
proof -
  from ToySequenceData_nth[OF ds i] obtain k k' where
    g: "gen_sample src max_seq_len min_seq_len max_value k
          = Inr ((data ds ! i, labels ds ! i, seqlen ds ! i), k')"
    by blast
  from gen_sample_Inr[OF g] have
    br: "if fst (random_random src (Suc k)) < 1 / 2
             then labels ds ! i = [1, 0] \<and>
                  (\<exists>rand_start. 0 \<le> rand_start \<and> rand_start \<le> max_value - seqlen ds ! i \<and>
                     data ds ! i
                       = map (\<lambda>j. [of_int (rand_start + int j) / of_int max_value])
                           [0..<nat (seqlen ds ! i)]
                         @ padding max_seq_len (seqlen ds ! i))
             else labels ds ! i = [0, 1] \<and>
                  (\<exists>vals. random_values src max_value (nat (seqlen ds ! i)) (Suc (Suc k))
                            = Inr (vals, k') \<and>
                     data ds ! i = vals @ padding max_seq_len (seqlen ds ! i))"
    by blast
  then have lab: "labels ds ! i = [1, 0] \<or> labels ds ! i = [0, 1]"
    by (cases "fst (random_random src (Suc k)) < 1 / 2") simp_all
  then have cnt: "length (labels ds ! i) = 2 \<and>
         length (filter (\<lambda>x. x = 1) (labels ds ! i)) = 1 \<and>
         length (filter (\<lambda>x. x = 0) (labels ds ! i)) = 1"
    by auto
  have det: "lab = (if fst (random_random src (Suc k)) < 1 / 2 then [1, 0] else [0, 1])"
    if "gen_sample src max_seq_len min_seq_len max_value k = Inr ((s, lab, len), k')"
    for k s lab len k'
    using gen_sample_Inr[OF that] by (simp split: if_splits)
  from det lab cnt g br show ?thesis by blast
qed

theorem labels_one_hot_and_match_branch_witness:
  "labels \<lparr>data = [[[3 / 7], [3 / 7], [0]]], labels = [[0, 1]], seqlen = [2], batch_id = 0\<rparr> ! 0 = [0, 1] \<and>
   length (filter (\<lambda>x. x = 1) (labels \<lparr>data = [[[3 / 7], [3 / 7], [0]]], labels = [[0, 1]], seqlen = [2], batch_id = 0\<rparr> ! 0)) = 1 \<and>
   (\<exists>k k'. gen_sample (\<lambda>k. 4503599627370499) 3 1 7 k
              = Inr ((data \<lparr>data = [[[3 / 7], [3 / 7], [0]]], labels = [[0, 1]], seqlen = [2], batch_id = 0\<rparr> ! 0, labels \<lparr>data = [[[3 / 7], [3 / 7], [0]]], labels = [[0, 1]], seqlen = [2], batch_id = 0\<rparr> ! 0, seqlen \<lparr>data = [[[3 / 7], [3 / 7], [0]]], labels = [[0, 1]], seqlen = [2], batch_id = 0\<rparr> ! 0), k'))"
proof -
  let ?ds = "\<lparr>data = [[[3 / 7], [3 / 7], [0]]], labels = [[0, 1]], seqlen = [2], batch_id = 0\<rparr> :: dataset"
  have i: "0 < length (labels ?ds)" by simp
  from labels_one_hot_and_match_branch[OF run_random i]
  have c: "length (filter (\<lambda>x. x = 1) (labels ?ds ! 0)) = 1"
    and g: "\<exists>k k'. gen_sample (\<lambda>k. 4503599627370499) 3 1 7 k
              = Inr ((data ?ds ! 0, labels ?ds ! 0, seqlen ?ds ! 0), k') \<and>
            (if fst (random_random (\<lambda>k. 4503599627370499) (Suc k)) < 1 / 2
             then labels ?ds ! 0 = [1, 0] \<and>
                  (\<exists>rand_start. 0 \<le> rand_start \<and> rand_start \<le> 7 - seqlen ?ds ! 0 \<and>
                     data ?ds ! 0
                       = map (\<lambda>j. [of_int (rand_start + int j) / of_int 7])
                           [0..<nat (seqlen ?ds ! 0)]
                         @ padding 3 (seqlen ?ds ! 0))
             else labels ?ds ! 0 = [0, 1] \<and>
                  (\<exists>vals. random_values (\<lambda>k. 4503599627370499) 7 (nat (seqlen ?ds ! 0)) (Suc (Suc k))
                            = Inr (vals, k') \<and>
                     data ?ds ! 0 = vals @ padding 3 (seqlen ?ds ! 0)))"
    by blast+
  from g have "\<exists>k k'. gen_sample (\<lambda>k. 4503599627370499) 3 1 7 k
              = Inr ((data ?ds ! 0, labels ?ds ! 0, seqlen ?ds ! 0), k')" by blast
  with c show ?thesis by simp
qed

end
